theory Spec2Isabelle
  imports Main "HOL-Library.Sublist" "HOL-Library.Multiset"
begin

section \<open>JavaScript strings\<close>

text \<open>
  A JavaScript string is modelled by the byte sequence of its UTF-8 encoding
  (\<^typ>\<open>string\<close>).  The delimiters the adapter searches for (\<open>/\<close>, \<open>github.com\<close>,
  \<open>git://\<close>, ...) are ASCII, so searching and cutting at them gives the same pieces in
  both representations, and \<open>encodeURIComponent\<close> works on the bytes of the encoding.
  A character of the Basic Multilingual Plane is one code unit of the JavaScript string
  and one to three bytes here; a character outside it is two code units and four bytes.
  Only the cut before a final \<open>git\<close> can separate the two code units of such a character;
  the first one, left on its own, is written in the three bytes the encoding scheme gives
  a code point of its size.
\<close>

definition startsWith :: "string \<Rightarrow> string \<Rightarrow> bool" where
  "startsWith s p = (take (length p) s = p)"

text \<open>\<open>s.indexOf(sub)\<close>: the first position where \<open>sub\<close> occurs, \<open>-1\<close> when there is none.\<close>

fun indexOf :: "string \<Rightarrow> string \<Rightarrow> int" where
  "indexOf [] sub = (if sub = [] then 0 else - 1)"
| "indexOf (c # r) sub =
     (if startsWith (c # r) sub then 0
      else (let k = indexOf r sub in if k < 0 then - 1 else k + 1))"

section \<open>The error classifier: \<open>_handleError\<close>\<close>

record jqXHR =
  status :: int
  statusText :: string
  getAllResponseHeaders :: string

record error_report =
  error :: string
  message :: string

definition msg_connection :: string where
  "msg_connection =
     ''Cannot connect to website.'' @ [CHR 0x0A] @
     ''          If your network connection to this website is fine, maybe there is an outage of the API.'' @ [CHR 0x0A] @
     ''          Please try again later.''"

definition msg_token_needed :: string where
  \<open>msg_token_needed =
     ''Accessing private repositories requires a GitHub access token. '' @
     ''Please go to <a class="settings-btn" href="javascript:void(0)">Settings</a> and enter a token.''\<close>

definition msg_rate_limit :: string where
  \<open>msg_rate_limit =
     ''You have exceeded the <a href="https://developer.github.com/v3/#rate-limiting">GitHub API rate limit</a>. '' @
     ''To continue using Octotree, you need to provide a GitHub access token. '' @
     ''Please go to <a class="settings-btn" href="javascript:void(0)">Settings</a> and enter a token.''\<close>

text \<open>
  The text that follows the statement \<open>message = '...single request. ';\<close> in the source
  (case 206).  It is an expression statement of its own: it is evaluated and dropped.
\<close>

definition msg_uncheck_hint :: string where
  \<open>msg_uncheck_hint =
     ''If you frequently work with this repository, go to the '' @
     ''<a class="settings-btn" href="javascript:void(0)">Settings</a> screen '' @
     ''and uncheck the "Load entire tree at once" option.''\<close>

text \<open>
  \<open>_handleError(settings, jqXHR, cb)\<close>.  The value is the object handed to \<open>cb\<close>.
  \<open>octotree.getInvalidTokenMessage\<close> is supplied by the host; it is a parameter, applied
  to the response status and the request headers \<open>settings.headers\<close>.
  The pair \<open>(error, message)\<close> of the \<open>switch\<close> is computed first, the prefix
  \<open>Error: \<close> is put in front of \<open>error\<close> for every case at the end.
\<close>

definition classify :: "(int \<Rightarrow> 'h \<Rightarrow> string) \<Rightarrow> 'h \<Rightarrow> jqXHR \<Rightarrow> string \<times> string" where
  "classify getInvalidTokenMessage headers x =
     (if status x = 0 then (''Connection error'', msg_connection)
      else if status x = 409 then (''Empty repository'', ''This repository is empty.'')
      else if status x = 206 then
        (''Repo too large'', ''This repository is too large to load in a single request. '')
      else if status x = 401 then (''Invalid token'', getInvalidTokenMessage (status x) headers)
      else if status x = 404 then (''Private repository'', msg_token_needed)
      else if status x = 403 then
        (if indexOf (getAllResponseHeaders x) ''X-RateLimit-Remaining: 0'' \<noteq> - 1
         then (''API limit exceeded'', msg_rate_limit)
         else (''Forbidden'', msg_token_needed))
      else (statusText x, statusText x))"

definition handleError :: "(int \<Rightarrow> 'h \<Rightarrow> string) \<Rightarrow> 'h \<Rightarrow> jqXHR \<Rightarrow> error_report" where
  "handleError getInvalidTokenMessage headers x =
     (case classify getInvalidTokenMessage headers x of
        (e, m) \<Rightarrow> \<lparr>error = ''Error: '' @ e, message = m\<rparr>)"

text \<open>The statuses the \<open>switch\<close> has a case for.\<close>

definition mapped_statuses :: "int set" where
  "mapped_statuses = {0, 409, 206, 401, 404, 403}"

text \<open>A formatter for the message of status 401, for evaluating the classifier.\<close>

definition sample_token_message :: "int \<Rightarrow> unit \<Rightarrow> string" where
  "sample_token_message st hs = ''The token is invalid.''"

section \<open>More string operations\<close>

text \<open>\<open>s.lastIndexOf(c)\<close>: the last position of the character, \<open>-1\<close> when it does not occur.\<close>

fun lastIndexOf :: "string \<Rightarrow> char \<Rightarrow> int" where
  "lastIndexOf [] c = - 1"
| "lastIndexOf (x # r) c =
     (let k = lastIndexOf r c in if 0 \<le> k then k + 1 else if x = c then 0 else - 1)"

text \<open>
  \<open>s.substring(a, b)\<close>: both arguments are clamped to \<open>0 .. s.length\<close> and swapped when
  the first is the larger one.  \<open>s.substring(a)\<close> runs to the end of the string.
\<close>

definition substring :: "string \<Rightarrow> int \<Rightarrow> int \<Rightarrow> string" where
  "substring s a b =
     (let n = int (length s); a' = max 0 (min a n); b' = max 0 (min b n)
      in take (nat (max a' b' - min a' b')) (drop (nat (min a' b')) s))"

definition substring_from :: "string \<Rightarrow> int \<Rightarrow> string" where
  "substring_from s a = substring s a (int (length s))"

text \<open>\<open>s.substr(start, n)\<close> for a start that is not negative.\<close>

definition substr :: "string \<Rightarrow> nat \<Rightarrow> nat \<Rightarrow> string" where
  "substr s start n = take n (drop start s)"

text \<open>\<open>s.split(c)\<close> and \<open>parts.join(sep)\<close>.\<close>

fun split :: "string \<Rightarrow> char \<Rightarrow> string list" where
  "split [] c = [[]]"
| "split (x # r) c =
     (if x = c then [] # split r c else (x # hd (split r c)) # tl (split r c))"

fun join :: "string list \<Rightarrow> string \<Rightarrow> string" where
  "join [] sep = []"
| "join [s] sep = s"
| "join (s # t # ss) sep = s @ sep @ join (t # ss) sep"

text \<open>
  \<open>$dummyDiv.text(s).html()\<close>: the string is set as the text of an element and read back
  as markup, which escapes \<open>&\<close>, \<open><\<close>, \<open>>\<close> and the no-break space (U+00A0, the bytes
  \<open>C2 A0\<close>).
\<close>

definition escape_char :: "char \<Rightarrow> string" where
  "escape_char c =
     (if c = CHR ''&'' then ''&amp;''
      else if c = CHR ''<'' then ''&lt;''
      else if c = CHR ''>'' then ''&gt;''
      else [c])"

fun html_text :: "string \<Rightarrow> string" where
  "html_text [] = []"
| "html_text [c] = escape_char c"
| "html_text (c # d # r) =
     (if c = CHR 0xC2 \<and> d = CHR 0xA0 then ''&nbsp;'' @ html_text r
      else escape_char c @ html_text (d # r))"

text \<open>
  \<open>encodeURIComponent\<close>: every byte of the UTF-8 encoding becomes \<open>%XX\<close> (upper-case
  hexadecimal), except the letters, the digits and \<open>- _ . ! ~ * ' ( )\<close>.
\<close>

definition uri_unreserved :: "char \<Rightarrow> bool" where
  "uri_unreserved c =
     (c \<in> set (''ABCDEFGHIJKLMNOPQRSTUVWXYZabcdefghijklmnopqrstuvwxyz0123456789-_.!~*()'' @ [CHR 0x27]))"

definition hex_digit :: "nat \<Rightarrow> char" where
  "hex_digit d = ''0123456789ABCDEF'' ! d"

definition percent_byte :: "char \<Rightarrow> string" where
  "percent_byte c = [CHR ''%'', hex_digit (of_char c div 16), hex_digit (of_char c mod 16)]"

definition encodeURIComponent :: "string \<Rightarrow> string" where
  "encodeURIComponent s = concat (map (\<lambda>c. if uri_unreserved c then [c] else percent_byte c) s)"

text \<open>
  Percent-decoding, the inverse the specification speaks of: \<open>%XX\<close> with two hexadecimal
  digits is the byte \<open>XX\<close>, any other character stands for itself, and a \<open>%\<close> that is not
  followed by two hexadecimal digits is an error (\<open>None\<close>).
\<close>

definition hex_value :: "char \<Rightarrow> nat option" where
  "hex_value c =
     (let n = (of_char c :: nat) in
      if 48 \<le> n \<and> n \<le> 57 then Some (n - 48)
      else if 65 \<le> n \<and> n \<le> 70 then Some (n - 55)
      else if 97 \<le> n \<and> n \<le> 102 then Some (n - 87)
      else None)"

fun percent_decode :: "string \<Rightarrow> string option" where
  "percent_decode [] = Some []"
| "percent_decode (c # r) =
     (if c = CHR ''%'' then
        (case r of
           h1 # h2 # r' \<Rightarrow>
             (case (hex_value h1, hex_value h2) of
                (Some a, Some b) \<Rightarrow> map_option ((#) (char_of (16 * a + b))) (percent_decode r')
              | _ \<Rightarrow> None)
         | _ \<Rightarrow> None)
      else map_option ((#) c) (percent_decode r))"

text \<open>
  A number inside a template literal: its decimal digits, with a minus sign when negative;
  a property that is absent prints as \<open>undefined\<close>.  Numbers are integers here.
\<close>

fun show_nat :: "nat \<Rightarrow> string" where
  "show_nat n =
     (if n < 10 then [''0123456789'' ! n]
      else show_nat (n div 10) @ [''0123456789'' ! (n mod 10)])"

declare show_nat.simps [simp del]

definition show_int :: "int \<Rightarrow> string" where
  "show_int i = (if i < 0 then ''-'' @ show_nat (nat (- i)) else show_nat (nat i))"

definition show_num :: "int option \<Rightarrow> string" where
  "show_num v = (case v of None \<Rightarrow> ''undefined'' | Some i \<Rightarrow> show_int i)"

definition show_str :: "string option \<Rightarrow> string" where
  "show_str v = (case v of None \<Rightarrow> ''undefined'' | Some s \<Rightarrow> s)"

section \<open>The tree builder: \<open>_loadCodeTreeInternal\<close>\<close>

subsection \<open>Data\<close>

record patch =
  action :: string
  previous :: "string option"
  filesChanged :: "int option"
  additions :: "int option"
  deletions :: "int option"
  diffId :: "int option"

record entry =
  path :: string
  type :: string
  sha :: "string option"
  url :: "string option"
  patch :: "patch option"

record repo =
  username :: string
  reponame :: string
  branch :: string
  pullNumber :: "int option"

text \<open>\<open>opts.node\<close>, the selected node of a lazy load; only its path is read.\<close>

record selected_node =
  node_path :: "string option"

text \<open>
  \<open>item.children\<close> is \<open>true\<close> in a lazy load; in a full load it is the array that is also
  registered in \<open>folders\<close>.  Arrays live in a store and are named by their address there,
  so that the sharing between \<open>folders[item.path]\<close> and \<open>item.children\<close> is kept.
\<close>

datatype children = Lazy | Eager nat

record a_attr =
  href :: string
  data_download_url :: "string option"
  data_download_filename :: "string option"

text \<open>
  The object as it is when the build has finished with it: the entry (after \<open>transform\<close>
  and the path prefix of a lazy load) and the properties the build has set on it.
\<close>

record rendered_node =
  item :: entry
  node_id :: string
  node_text :: string
  icon :: string
  children :: "children option"
  a_attr :: "a_attr option"

text \<open>
  What the body of \<open>nextChunk\<close> reads from its surroundings: the constant \<open>NODE_PREFIX\<close>,
  the stored preference \<open>this.store.get(STORE.ICONS)\<close>, \<open>FileIcons.getClassWithColor\<close>
  (\<open>None\<close> for a result that is not a string), \<open>window.location.protocol\<close>, \<open>opts.repo\<close>,
  \<open>opts.encodedBranch\<close> and \<open>opts.node\<close>, the \<open>transform\<close> of the subclass (its effect on
  the item) and the submodule map the second fetch has delivered.
\<close>

record build_env =
  NODE_PREFIX :: string
  store_icons :: bool
  getClassWithColor :: "string \<Rightarrow> string option"
  location_protocol :: string
  opts_repo :: repo
  opts_encodedBranch :: string
  opts_node :: "selected_node option"
  transform :: "(entry \<Rightarrow> entry) option"
  submodules :: "string \<rightharpoonup> string"

datatype js_error = TypeError

text \<open>
  The state of one build: \<open>folders\<close> maps a directory path to the address of its array,
  \<open>arrays\<close> is the store.  At the start \<open>folders = {'': []}\<close>.  (A key that \<open>folders\<close>
  only inherits from its prototype is never an array, so a push under it raises the same
  TypeError as a push under a key that is missing.)
\<close>

record build_state =
  folders :: "string \<rightharpoonup> nat"
  arrays :: "rendered_node list list"

definition initial_state :: build_state where
  "initial_state = \<lparr>folders = [[] \<mapsto> 0], arrays = [[]]\<rparr>"

subsection \<open>The text, the icon and the links of an item\<close>

definition item_name :: "entry \<Rightarrow> string" where
  "item_name it = html_text (substring_from (path it) (lastIndexOf (path it) CHR ''/'' + 1))"

definition item_icon :: "build_env \<Rightarrow> entry \<Rightarrow> string" where
  "item_icon env it =
     (if type it = ''blob'' then
        (if store_icons env then
           type it @ '' '' @
             (case getClassWithColor env (item_name it) of
                None \<Rightarrow> ''file-generic''
              | Some className \<Rightarrow> if className = [] then ''file-generic'' else className)
         else type it @ '' file-generic'')
      else type it)"

definition action_badge :: "patch \<Rightarrow> string" where
  \<open>action_badge p =
     (if action p = ''added'' then ''<span class="text-green">added</span>''
      else if action p = ''renamed'' then
        ''<span class="text-green" title="'' @ show_str (previous p) @ ''">renamed</span>''
      else if action p = ''removed'' then
        ''<span class="text-red" title="'' @ show_str (previous p) @ ''">removed</span>''
      else [])\<close>

definition files_badge :: "patch \<Rightarrow> string" where
  "files_badge p =
     (case filesChanged p of
        None \<Rightarrow> []
      | Some n \<Rightarrow>
          if n = 0 then []
          else ''<span>'' @ show_int n @ '' '' @ (if n = 1 then ''file'' else ''files'') @ ''</span>'')"

definition additions_badge :: "patch \<Rightarrow> string" where
  \<open>additions_badge p =
     (if additions p \<noteq> Some 0
      then ''<span class="text-green">+'' @ show_num (additions p) @ ''</span>'' else [])\<close>

definition deletions_badge :: "patch \<Rightarrow> string" where
  \<open>deletions_badge p =
     (if deletions p \<noteq> Some 0
      then ''<span class="text-red">-'' @ show_num (deletions p) @ ''</span>'' else [])\<close>

definition patch_html :: "patch \<Rightarrow> string" where
  "patch_html p = action_badge p @ files_badge p @ additions_badge p @ deletions_badge p"

definition item_text :: "entry \<Rightarrow> string" where
  \<open>item_text it =
     (case patch it of
        None \<Rightarrow> item_name it
      | Some p \<Rightarrow> item_name it @ ''<span class="patch">'' @ patch_html p @ ''</span>'')\<close>

definition getItemHref :: "repo \<Rightarrow> string \<Rightarrow> string \<Rightarrow> string \<Rightarrow> string" where
  "getItemHref r ty encodedPath encodedBranch =
     ''/'' @ username r @ ''/'' @ reponame r @ ''/'' @ ty @ ''/'' @ encodedBranch @ ''/'' @ encodedPath"

definition getPatchHref :: "repo \<Rightarrow> patch \<Rightarrow> string" where
  "getPatchHref r p =
     ''/'' @ username r @ ''/'' @ reponame r @ ''/pull/'' @ show_num (pullNumber r) @
     ''/files#diff-'' @ show_num (diffId p)"

definition encodedPath :: "string \<Rightarrow> string" where
  "encodedPath p = join (map encodeURIComponent (split p CHR ''/'')) ''/''"

text \<open>
  The \<open>a_attr\<close> of a \<open>tree\<close> or \<open>blob\<close> item: the link into the diff of the pull request
  when the item has a patch whose \<open>diffId\<close> is a number, the link to the item otherwise.
\<close>

definition has_diffId :: "entry \<Rightarrow> bool" where
  "has_diffId it = (case patch it of None \<Rightarrow> False | Some p \<Rightarrow> diffId p \<noteq> None)"

definition item_href :: "build_env \<Rightarrow> entry \<Rightarrow> string" where
  "item_href env it =
     getItemHref (opts_repo env) (type it) (encodedPath (path it)) (opts_encodedBranch env)"

definition file_attr :: "build_env \<Rightarrow> entry \<Rightarrow> a_attr" where
  "file_attr env it =
     (if has_diffId it then
        \<lparr>href = (case patch it of None \<Rightarrow> [] | Some p \<Rightarrow> getPatchHref (opts_repo env) p),
         data_download_url = url it,
         data_download_filename = Some (item_name it)\<rparr>
      else
        \<lparr>href = item_href env it,
         data_download_url = Some (item_href env it),
         data_download_filename = Some (item_name it)\<rparr>)"

subsection \<open>Submodule links\<close>

text \<open>
  \<open>.replace(/^git(:\/\/|@)/, window.location.protocol + '//')\<close>.  The protocol of a page is
  a URL scheme followed by a colon; it has no \<open>$\<close>, so the replacement is inserted as it
  is.
\<close>

definition replace_git_scheme :: "string \<Rightarrow> string \<Rightarrow> string" where
  "replace_git_scheme s rep =
     (if startsWith s ''git://'' then rep @ drop 6 s
      else if startsWith s ''git@'' then rep @ drop 4 s
      else s)"

text \<open>\<open>s.replace(pat, rep)\<close> with a string pattern: the first occurrence only.\<close>

fun replace_first :: "string \<Rightarrow> string \<Rightarrow> string \<Rightarrow> string" where
  "replace_first [] pat rep = (if pat = [] then rep else [])"
| "replace_first (c # r) pat rep =
     (if startsWith (c # r) pat then rep @ drop (length pat) (c # r)
      else c # replace_first r pat rep)"

text \<open>
  \<open>.replace(/.git$/, '')\<close>.  The dot of a regular expression matches one code unit that
  is not a line terminator (LF, CR, U+2028, U+2029; the last two are the bytes
  \<open>E2 80 A8\<close> and \<open>E2 80 A9\<close>), and \<open>$\<close> matches at the end of the string only.  So the
  pattern matches when the string ends in \<open>git\<close> with a character before it that is not a
  line terminator.  What is removed with \<open>git\<close> is that character, all its bytes, when
  it is one code unit; when it is two code units (four bytes) only the second one is
  removed and the first one stays.
\<close>

definition continuation_byte :: "char \<Rightarrow> bool" where
  "continuation_byte b = (128 \<le> (of_char b :: nat) \<and> (of_char b :: nat) < 192)"

text \<open>The bytes of the last character: its lead byte and the continuation bytes after it.\<close>

definition last_character :: "string \<Rightarrow> string" where
  "last_character s = drop (length s - Suc (length (takeWhile continuation_byte (rev s)))) s"

definition line_terminator :: "string \<Rightarrow> bool" where
  "line_terminator ch =
     (ch = [CHR 0x0A] \<or> ch = [CHR 0x0D] \<or>
      ch = [CHR 0xE2, CHR 0x80, CHR 0xA8] \<or> ch = [CHR 0xE2, CHR 0x80, CHR 0xA9])"

text \<open>
  The first code unit (the high surrogate) of a character of four bytes, in three bytes.
\<close>

definition first_code_unit :: "string \<Rightarrow> string" where
  "first_code_unit ch =
     (let cp = (of_char (ch ! 0) mod 8) * 262144 + (of_char (ch ! 1) mod 64) * 4096 +
               (of_char (ch ! 2) mod 64) * 64 + of_char (ch ! 3) mod 64;
          hs = 55296 + (cp - 65536) div 1024 :: nat
      in [CHR 0xED, char_of (128 + hs div 64 mod 64), char_of (128 + hs mod 64)])"

definition replace_dot_git_end :: "string \<Rightarrow> string" where
  "replace_dot_git_end s =
     (let pre = take (length s - 3) s; ch = last_character pre in
      if 3 \<le> length s \<and> drop (length s - 3) s = ''git'' \<and> pre \<noteq> [] \<and> \<not> line_terminator ch
      then (if length ch = 4 then take (length pre - 4) pre @ first_code_unit ch
            else take (length pre - length ch) pre)
      else s)"

definition normalize_module_url :: "build_env \<Rightarrow> string \<Rightarrow> string" where
  "normalize_module_url env moduleUrl =
     replace_dot_git_end
       (replace_first (replace_git_scheme moduleUrl (location_protocol env @ ''//''))
          ''github.com:'' ''github.com/'')"

definition submodule_text :: "string \<Rightarrow> string \<Rightarrow> string \<Rightarrow> string" where
  \<open>submodule_text moduleUrl name s =
     ''<a href="'' @ moduleUrl @ ''" class="jstree-anchor">'' @ name @ ''</a>'' @
     ''<span>@ </span>'' @
     ''<a href="'' @ moduleUrl @ ''/tree/'' @ s @ ''" class="jstree-anchor">'' @ substr s 0 7 @ ''</a>''\<close>

subsection \<open>The body of the loop\<close>

text \<open>
  The item after \<open>transform(item)\<close> and, in a lazy load under a node that has a path,
  after \<open>item.path = node.path + '/' + item.path\<close>.
\<close>

definition prepare :: "build_env \<Rightarrow> entry \<Rightarrow> entry" where
  "prepare env raw =
     (let it = (case transform env of None \<Rightarrow> raw | Some f \<Rightarrow> f raw) in
      case opts_node env of
        None \<Rightarrow> it
      | Some nd \<Rightarrow>
          (case node_path nd of
             None \<Rightarrow> it
           | Some p \<Rightarrow> if p = [] then it else it\<lparr>path := p @ ''/'' @ path it\<rparr>))"

text \<open>The key of the array the item is pushed to.\<close>

definition bucket_key :: "build_env \<Rightarrow> entry \<Rightarrow> string" where
  "bucket_key env it =
     (if opts_node env \<noteq> None then []
      else substring (path it) 0 (lastIndexOf (path it) CHR ''/''))"

text \<open>
  \<open>submodules[item.path]\<close>.  The submodule map is a plain object (\<open>submodules || {}\<close>)
  whose own properties are the entries of the map.  For a key that is not its own the
  lookup goes on to \<open>Object.prototype\<close>: for the names below it finds a function (for
  \<open>__proto__\<close> the prototype object), for every other key nothing.
\<close>

definition object_prototype_keys :: "string list" where
  "object_prototype_keys =
     [''constructor'', ''hasOwnProperty'', ''isPrototypeOf'', ''propertyIsEnumerable'',
      ''toLocaleString'', ''toString'', ''valueOf'', ''__proto__'',
      ''__defineGetter__'', ''__defineSetter__'', ''__lookupGetter__'', ''__lookupSetter__'']"

datatype property = Undefined | Inherited | Own string

definition get_property :: "(string \<rightharpoonup> string) \<Rightarrow> string \<Rightarrow> property" where
  "get_property obj key =
     (case obj key of
        Some v \<Rightarrow> Own v
      | None \<Rightarrow> if key \<in> set object_prototype_keys then Inherited else Undefined)"

text \<open>
  Everything the loop body sets on the item.  \<open>fresh\<close> is the address of the array a
  \<open>tree\<close> item gets as its \<open>children\<close> in a full load.  For a \<open>commit\<close> item,
  \<open>moduleUrl.indexOf\<close> raises a TypeError when the lookup has found an inherited member
  (it is truthy and has no \<open>indexOf\<close>), and \<open>item.sha.substr\<close> raises one when the item
  of a GitHub submodule has no \<open>sha\<close>.
\<close>

definition render_node :: "build_env \<Rightarrow> nat \<Rightarrow> entry \<Rightarrow> js_error + rendered_node" where
  "render_node env fresh it =
     (let n = \<lparr>item = it, node_id = NODE_PREFIX env @ path it, node_text = item_text it,
               icon = item_icon env it, children = None, a_attr = None\<rparr>
      in
      if type it = ''tree'' \<or> type it = ''blob'' then
        Inr (n\<lparr>children :=
                 (if type it = ''tree''
                  then (if opts_node env \<noteq> None then Some Lazy else Some (Eager fresh))
                  else None),
               a_attr := Some (file_attr env it)\<rparr>)
      else if type it = ''commit'' then
        (case get_property (submodules env) (path it) of
           Undefined \<Rightarrow> Inr n
         | Inherited \<Rightarrow> Inl TypeError
         | Own moduleUrl \<Rightarrow>
             if moduleUrl = [] then Inr n
             else if indexOf moduleUrl ''github.com'' \<noteq> - 1 then
               (case sha it of
                  None \<Rightarrow> Inl TypeError
                | Some s \<Rightarrow>
                    Inr (n\<lparr>node_text :=
                             submodule_text (normalize_module_url env moduleUrl) (item_name it) s,
                           a_attr :=
                             Some \<lparr>href = normalize_module_url env moduleUrl,
                                   data_download_url = None, data_download_filename = None\<rparr>\<rparr>))
             else
               Inr (n\<lparr>a_attr :=
                        Some \<lparr>href = moduleUrl,
                              data_download_url = None, data_download_filename = None\<rparr>\<rparr>))
      else Inr n)"

text \<open>\<open>folders[key].push(n)\<close> on the array at address \<open>a\<close>.\<close>

definition push :: "nat \<Rightarrow> rendered_node \<Rightarrow> rendered_node list list \<Rightarrow> rendered_node list list" where
  "push a n as = as[a := as ! a @ [n]]"

text \<open>
  One pass of the loop body for the item \<open>raw\<close>.  \<open>folders[key].push(item)\<close> raises a
  TypeError when \<open>folders\<close> has no array for the key.  In a full load a \<open>tree\<close> item gets a
  new empty array, which is registered under the item's path.
\<close>

definition step :: "build_env \<Rightarrow> build_state \<Rightarrow> entry \<Rightarrow> js_error + build_state" where
  "step env st raw =
     (let it = prepare env raw in
      case folders st (bucket_key env it) of
        None \<Rightarrow> Inl TypeError
      | Some a \<Rightarrow>
          (case render_node env (length (arrays st)) it of
             Inl e \<Rightarrow> Inl e
           | Inr n \<Rightarrow>
               if type it = ''tree'' \<and> opts_node env = None then
                 Inr \<lparr>folders = (folders st)(path it \<mapsto> length (arrays st)),
                      arrays = push a n (arrays st) @ [[]]\<rparr>
               else
                 Inr \<lparr>folders = folders st, arrays = push a n (arrays st)\<rparr>))"

subsection \<open>The chunked loop\<close>

definition CHUNK_SIZE :: nat where
  "CHUNK_SIZE = 300"

text \<open>
  \<open>nextChunk(iteration)\<close> with the counter \<open>i\<close> of its \<open>for\<close> loop.  When \<open>tree\<close> has no
  item at \<open>iteration * CHUNK_SIZE + i\<close> the build is done and \<open>cb\<close> receives
  \<open>folders['']\<close>; the value here is the final state, from which \<open>delivered\<close> reads that
  array.  After \<open>CHUNK_SIZE\<close> items the next chunk is scheduled with \<open>setTimeout\<close>; the
  state of the build is local to it, so the scheduled call continues from the same state.
  An exception leaves the loop and \<open>cb\<close> is never called.
\<close>

function nextChunk ::
  "build_env \<Rightarrow> entry list \<Rightarrow> nat \<Rightarrow> nat \<Rightarrow> build_state \<Rightarrow> js_error + build_state" where
  "nextChunk env tree iteration i st =
     (if i < CHUNK_SIZE then
        (if iteration * CHUNK_SIZE + i < length tree then
           (case step env st (tree ! (iteration * CHUNK_SIZE + i)) of
              Inl e \<Rightarrow> Inl e
            | Inr st' \<Rightarrow> nextChunk env tree iteration (i + 1) st')
         else Inr st)
      else nextChunk env tree (iteration + 1) 0 st)"
  by pat_completeness auto
termination
  by (relation "measure (\<lambda>(env, tree, iteration, i, st).
        2 * (length tree - (iteration * CHUNK_SIZE + min i CHUNK_SIZE)) + (if i < CHUNK_SIZE then 0 else 1))")
     (auto simp: CHUNK_SIZE_def)

declare nextChunk.simps [simp del]

text \<open>
  \<open>_loadCodeTreeInternal\<close> from the point where both fetches have succeeded: \<open>tree\<close> is
  the list \<open>_getTree\<close> has delivered, the submodule map is part of the surroundings, and
  \<open>nextChunk()\<close> starts with iteration 0 on \<open>folders = {'': []}\<close>.
\<close>

definition loadCodeTreeInternal :: "build_env \<Rightarrow> entry list \<Rightarrow> js_error + build_state" where
  "loadCodeTreeInternal env tree = nextChunk env tree 0 0 initial_state"

definition delivered :: "build_state \<Rightarrow> rendered_node list" where
  "delivered st = (case folders st [] of None \<Rightarrow> [] | Some a \<Rightarrow> arrays st ! a)"

text \<open>
  The reference for the chunked loop: the loop body applied to the items one after the
  other in a single pass.
\<close>

fun sequential_pass :: "build_env \<Rightarrow> build_state \<Rightarrow> entry list \<Rightarrow> js_error + build_state" where
  "sequential_pass env st [] = Inr st"
| "sequential_pass env st (raw # rest) =
     (case step env st raw of
        Inl e \<Rightarrow> Inl e
      | Inr st' \<Rightarrow> sequential_pass env st' rest)"

subsection \<open>Invariants and sample inputs\<close>

text \<open>Every address registered in \<open>folders\<close> names an array of the store.\<close>

definition addresses_valid :: "build_state \<Rightarrow> bool" where
  "addresses_valid st = (\<forall>k a. folders st k = Some a \<longrightarrow> a < length (arrays st))"

text \<open>Concrete surroundings and entry lists, for evaluating the build.\<close>

definition sample_repo :: repo where
  "sample_repo = \<lparr>username = ''octo'', reponame = ''tree'', branch = ''master'', pullNumber = Some 7\<rparr>"

definition no_icon_class :: "string \<Rightarrow> string option" where
  "no_icon_class name = None"

definition full_env :: build_env where
  "full_env =
     \<lparr>NODE_PREFIX = ''octotree'', store_icons = False, getClassWithColor = no_icon_class,
      location_protocol = ''https:'', opts_repo = sample_repo, opts_encodedBranch = ''master'',
      opts_node = None, transform = None,
      submodules = [''lib/sub'' \<mapsto> ''git://github.com/owner/repo.git'']\<rparr>"

definition blob_entry :: "string \<Rightarrow> entry" where
  "blob_entry p = \<lparr>path = p, type = ''blob'', sha = None, url = None, patch = None\<rparr>"

definition tree_entry :: "string \<Rightarrow> entry" where
  "tree_entry p = \<lparr>path = p, type = ''tree'', sha = None, url = None, patch = None\<rparr>"

definition commit_entry :: "string \<Rightarrow> string \<Rightarrow> entry" where
  "commit_entry p s = \<lparr>path = p, type = ''commit'', sha = Some s, url = None, patch = None\<rparr>"

definition sample_tree :: "entry list" where
  "sample_tree =
     [tree_entry ''lib'', blob_entry ''lib/a b%.js'', blob_entry ''README.md'',
      commit_entry ''lib/sub'' ''0123456789abcdef'']"

text \<open>
  The item of a submodule whose URL in the submodule map mentions \<open>github.com\<close>: its text
  is replaced by the two links.  The item of a submodule whose path is not in the map but
  names an inherited member of the map object: the lookup of its URL raises.
\<close>

definition github_submodule :: "build_env \<Rightarrow> entry \<Rightarrow> bool" where
  "github_submodule env it =
     (type it = ''commit'' \<and>
      (case get_property (submodules env) (path it) of
         Own moduleUrl \<Rightarrow> moduleUrl \<noteq> [] \<and> indexOf moduleUrl ''github.com'' \<noteq> - 1
       | _ \<Rightarrow> False))"

definition inherited_submodule :: "build_env \<Rightarrow> entry \<Rightarrow> bool" where
  "inherited_submodule env it =
     (type it = ''commit'' \<and> get_property (submodules env) (path it) = Inherited)"

text \<open>A removed file in a pull request, without and with the counts of changed lines.\<close>

definition removed_patch :: "int option \<Rightarrow> int option \<Rightarrow> patch" where
  "removed_patch a d =
     \<lparr>action = ''removed'', previous = Some ''old/path.txt'', filesChanged = None,
      additions = a, deletions = d, diffId = None\<rparr>"

definition removed_entry :: "int option \<Rightarrow> int option \<Rightarrow> entry" where
  "removed_entry a d =
     \<lparr>path = ''new/path.txt'', type = ''blob'', sha = None, url = None,
      patch = Some (removed_patch a d)\<rparr>"

section \<open>Properties of the error classifier\<close>

lemma indexOf_ge: "- 1 \<le> indexOf s sub"
  by (induction s) (auto simp: Let_def)







text \<open>
  C4 as stated fails: for a status outside the mapped set the \<open>error\<close> field is not the raw
  status text, it carries the prefix \<open>Error: \<close> like every other case.
\<close>

theorem handleError_fallback_counterexample:
  "error (handleError sample_token_message ()
     \<lparr>status = 500, statusText = ''Internal Server Error'', getAllResponseHeaders = ''''\<rparr>)
   \<noteq> ''Internal Server Error''"
  by (simp add: handleError_def classify_def)

text \<open>
  C4, amended.  For every status outside \<open>{0, 409, 206, 401, 404, 403}\<close> the \<open>message\<close>
  field is the supplied status text and the \<open>error\<close> field is the status text after the
  prefix \<open>Error: \<close>.
\<close>

theorem handleError_fallback:
  "status x \<notin> mapped_statuses \<Longrightarrow>
   handleError g h x = \<lparr>error = ''Error: '' @ statusText x, message = statusText x\<rparr>"
  by (simp add: handleError_def classify_def mapped_statuses_def)

theorem handleError_fallback_witness:
  "status \<lparr>status = 500, statusText = ''Internal Server Error'', getAllResponseHeaders = ''''\<rparr>
     \<notin> mapped_statuses \<and>
   handleError sample_token_message ()
     \<lparr>status = 500, statusText = ''Internal Server Error'', getAllResponseHeaders = ''''\<rparr>
   = \<lparr>error = ''Error: Internal Server Error'', message = ''Internal Server Error''\<rparr>"
proof -
  have m: "status \<lparr>status = 500, statusText = ''Internal Server Error'', getAllResponseHeaders = ''''\<rparr>
     \<notin> mapped_statuses"
    by (simp add: mapped_statuses_def)
  show ?thesis
    using m handleError_fallback [OF m, of sample_token_message "()"] by simp
qed

text \<open>
  C5.  At status 206 the classifier returns the error \<open>Error: Repo too large\<close>, and its
  message is only the sentence about the size of the repository: the text that suggests
  unchecking "Load entire tree at once" is not part of it (the word \<open>uncheck\<close> does not
  occur in the message, nor does the hint as a whole).
\<close>

theorem handleError_206_message:
  "handleError sample_token_message ()
     \<lparr>status = 206, statusText = ''Partial Content'', getAllResponseHeaders = ''''\<rparr>
   = \<lparr>error = ''Error: Repo too large'',
      message = ''This repository is too large to load in a single request. ''\<rparr> \<and>
   indexOf (message (handleError sample_token_message ()
     \<lparr>status = 206, statusText = ''Partial Content'', getAllResponseHeaders = ''''\<rparr>)) ''uncheck'' = - 1 \<and>
   indexOf (message (handleError sample_token_message ()
     \<lparr>status = 206, statusText = ''Partial Content'', getAllResponseHeaders = ''''\<rparr>)) msg_uncheck_hint = - 1"
  by (simp add: handleError_def classify_def startsWith_def msg_uncheck_hint_def)

section \<open>Properties of the chunked loop\<close>

lemma nextChunk_sequential:
  "i \<le> CHUNK_SIZE \<Longrightarrow>
   nextChunk env tree iteration i st = sequential_pass env st (drop (iteration * CHUNK_SIZE + i) tree)"
proof (induction env tree iteration i st rule: nextChunk.induct)
  case (1 env tree iteration i st)
  show ?case
  proof (cases "i < CHUNK_SIZE")
    case True
    show ?thesis
    proof (cases "iteration * CHUNK_SIZE + i < length tree")
      case inside: True
      then have d: "drop (iteration * CHUNK_SIZE + i) tree =
          tree ! (iteration * CHUNK_SIZE + i) # drop (iteration * CHUNK_SIZE + (i + 1)) tree"
        by (simp add: Cons_nth_drop_Suc)
      show ?thesis
      proof (cases "step env st (tree ! (iteration * CHUNK_SIZE + i))")
        case (Inl e)
        then show ?thesis
          using True inside d by (subst nextChunk.simps) simp
      next
        case (Inr st')
        have "nextChunk env tree iteration (i + 1) st' =
            sequential_pass env st' (drop (iteration * CHUNK_SIZE + (i + 1)) tree)"
          using "1.IH"(1) [OF True inside Inr] True by simp
        then show ?thesis
          using True inside d Inr by (subst nextChunk.simps) simp
      qed
    next
      case False
      then show ?thesis
        using True by (subst nextChunk.simps) simp
    qed
  next
    case False
    with "1.prems" have i: "i = CHUNK_SIZE" by simp
    have "nextChunk env tree (iteration + 1) 0 st =
        sequential_pass env st (drop ((iteration + 1) * CHUNK_SIZE + 0) tree)"
      using "1.IH"(2) [OF False] by simp
    then show ?thesis
      using False i by (subst nextChunk.simps) (simp add: add.commute)
  qed
qed

lemma loadCodeTreeInternal_sequential:
  "loadCodeTreeInternal env tree = sequential_pass env initial_state tree"
  unfolding loadCodeTreeInternal_def
  using nextChunk_sequential [of 0 env tree 0 initial_state] by simp

text \<open>
  C7.  Batching cannot be observed: for every list of entries, of any length, the loop
  that works in chunks of 300 with a yield between them ends in the same state (the same
  arrays with the same nodes, or the same exception) as one sequential pass over all
  entries; so the array it delivers is the same too.
\<close>

theorem chunking_transparent:
  "loadCodeTreeInternal env tree = sequential_pass env initial_state tree \<and>
   map_sum id delivered (loadCodeTreeInternal env tree) =
     map_sum id delivered (sequential_pass env initial_state tree)"
  by (simp add: loadCodeTreeInternal_sequential)

section \<open>Properties of the buckets\<close>

lemma render_node_item: "render_node env fresh it = Inr n \<Longrightarrow> item n = it"
  by (auto simp: render_node_def Let_def split: if_splits option.splits property.splits)

lemma length_push [simp]: "length (push a n as) = length as"
  by (simp add: push_def)

lemma concat_push:
  "a < length as \<Longrightarrow> mset (concat (push a n as)) = add_mset n (mset (concat as))"
proof (induction as arbitrary: a)
  case Nil
  then show ?case by simp
next
  case (Cons b as)
  then show ?case
    by (cases a) (auto simp: push_def)
qed

lemma set_push: "b \<in> set (push a n as) \<Longrightarrow> a < length as \<Longrightarrow> b \<in> set as \<or> b = as ! a @ [n]"
  unfolding push_def using set_update_subset_insert [of as a "as ! a @ [n]"] by auto

lemma step_arrays:
  assumes "step env st raw = Inr st'" and "addresses_valid st"
  shows "\<exists>a n. a < length (arrays st) \<and> item n = prepare env raw \<and>
           (arrays st' = push a n (arrays st) \<or> arrays st' = push a n (arrays st) @ [[]]) \<and>
           addresses_valid st'"
proof -
  obtain a where a: "folders st (bucket_key env (prepare env raw)) = Some a"
    using assms(1) by (auto simp: step_def Let_def split: option.splits)
  obtain n where n: "render_node env (length (arrays st)) (prepare env raw) = Inr n"
    using assms(1) a by (auto simp: step_def Let_def split: sum.splits)
  have lt: "a < length (arrays st)"
    using a assms(2) by (auto simp: addresses_valid_def)
  have it: "item n = prepare env raw"
    using n by (rule render_node_item)
  have "(arrays st' = push a n (arrays st) \<or> arrays st' = push a n (arrays st) @ [[]]) \<and>
        addresses_valid st'"
    using assms a n by (auto simp: step_def Let_def addresses_valid_def less_Suc_eq split: if_splits)
  with lt it show ?thesis by blast
qed


lemma sequential_pass_buckets:
  assumes "sequential_pass env st es = Inr st'" and "addresses_valid st"
    and "\<forall>b\<in>set (arrays st). subseq (map item b) (map (prepare env) pre)"
  shows "addresses_valid st' \<and>
     mset (map item (concat (arrays st'))) =
       mset (map item (concat (arrays st))) + mset (map (prepare env) es) \<and>
     (\<forall>b\<in>set (arrays st'). subseq (map item b) (map (prepare env) (pre @ es)))"
  using assms
proof (induction es arbitrary: st pre)
  case Nil
  then show ?case by simp
next
  case (Cons raw es)
  from Cons.prems(1) obtain st1 where s1: "step env st raw = Inr st1"
    and rest: "sequential_pass env st1 es = Inr st'"
    by (auto split: sum.splits)
  from step_arrays [OF s1 Cons.prems(2)] obtain a n where
    a: "a < length (arrays st)" and n: "item n = prepare env raw" and
    arr: "arrays st1 = push a n (arrays st) \<or> arrays st1 = push a n (arrays st) @ [[]]" and
    v1: "addresses_valid st1"
    by blast
  have m1: "mset (concat (arrays st1)) = add_mset n (mset (concat (arrays st)))"
    using arr concat_push [OF a, of n] by auto
  have sub1: "\<forall>b\<in>set (arrays st1). subseq (map item b) (map (prepare env) (pre @ [raw]))"
  proof
    fix b assume "b \<in> set (arrays st1)"
    then have "b \<in> set (push a n (arrays st)) \<or> b = []"
      using arr by auto
    then consider "b \<in> set (arrays st)" | "b = arrays st ! a @ [n]" | "b = []"
      using set_push [OF _ a] by blast
    then show "subseq (map item b) (map (prepare env) (pre @ [raw]))"
    proof cases
      case 1
      then have "subseq (map item b) (map (prepare env) pre)"
        using Cons.prems(3) by blast
      then show ?thesis
        by (simp add: subseq_rev_drop_many)
    next
      case 2
      have "subseq (map item (arrays st ! a)) (map (prepare env) pre)"
        using Cons.prems(3) a by simp
      then show ?thesis
        using 2 n by (simp add: list_emb_append_mono)
    next
      case 3
      then show ?thesis by simp
    qed
  qed
  from Cons.IH [OF rest v1 sub1] have
    "addresses_valid st'" and
    m: "mset (map item (concat (arrays st'))) =
       mset (map item (concat (arrays st1))) + mset (map (prepare env) es)" and
    s: "\<forall>b\<in>set (arrays st'). subseq (map item b) (map (prepare env) ((pre @ [raw]) @ es))"
    by blast+
  have "mset (map item (concat (arrays st1))) = add_mset (prepare env raw) (mset (map item (concat (arrays st))))"
    using m1 n by (metis image_mset_add_mset mset_map)
  with m s \<open>addresses_valid st'\<close> show ?case by simp
qed

lemma initial_valid: "addresses_valid initial_state"
  by (simp add: addresses_valid_def initial_state_def)

text \<open>
  C1.  When a build delivers a result, the nodes placed into the arrays are the entries
  of the list (as prepared by \<open>transform\<close> and the path prefix), each exactly once: there
  are as many nodes as entries and they are the same multiset; and in every array the
  nodes stand in the order their entries have in the list.
\<close>

theorem nodes_match_entries:
  assumes "loadCodeTreeInternal env tree = Inr st"
  shows "length (concat (arrays st)) = length tree \<and>
     mset (map item (concat (arrays st))) = mset (map (prepare env) tree) \<and>
     (\<forall>b\<in>set (arrays st). subseq (map item b) (map (prepare env) tree))"
proof -
  have sp: "sequential_pass env initial_state tree = Inr st"
    using assms by (simp add: loadCodeTreeInternal_sequential)
  have "\<forall>b\<in>set (arrays initial_state). subseq (map item b) (map (prepare env) [])"
    by (simp add: initial_state_def)
  from sequential_pass_buckets [OF sp initial_valid this]
  have m: "mset (map item (concat (arrays st))) = mset (map (prepare env) tree)"
    and s: "\<forall>b\<in>set (arrays st). subseq (map item b) (map (prepare env) tree)"
    by (simp_all add: initial_state_def)
  from m have "size (mset (map item (concat (arrays st)))) = size (mset (map (prepare env) tree))"
    by simp
  then have "length (concat (arrays st)) = length tree" by simp
  with m s show ?thesis by blast
qed

theorem nodes_match_entries_witness:
  "\<exists>st. loadCodeTreeInternal full_env sample_tree = Inr st \<and>
     length (concat (arrays st)) = 4 \<and>
     mset (map item (concat (arrays st))) = mset (map (prepare full_env) sample_tree) \<and>
     (\<forall>b\<in>set (arrays st). subseq (map item b) (map (prepare full_env) sample_tree))"
proof -
  have "\<not> isl (loadCodeTreeInternal full_env sample_tree)"
    by code_simp
  then obtain st where st: "loadCodeTreeInternal full_env sample_tree = Inr st"
    by (cases "loadCodeTreeInternal full_env sample_tree") auto
  have "length sample_tree = 4"
    by (simp add: sample_tree_def)
  with nodes_match_entries [OF st] st show ?thesis
    by auto
qed

section \<open>A missing parent bucket\<close>

lemma js_error_is_TypeError: "e = TypeError"
  by (cases e)

lemma isl_TypeError: "isl r \<Longrightarrow> r = Inl TypeError" for r :: "js_error + 'a"
  by (cases r) (simp_all add: js_error_is_TypeError)

lemma step_missing_key:
  "folders st (bucket_key env (prepare env raw)) = None \<Longrightarrow> step env st raw = Inl TypeError"
  by (simp add: step_def Let_def)

lemma step_dom:
  assumes "step env st raw = Inr st'" and "opts_node env = None"
  shows "dom (folders st') =
     (if type (prepare env raw) = ''tree'' then insert (path (prepare env raw)) (dom (folders st))
      else dom (folders st))"
  using assms
  by (auto simp: step_def Let_def split: option.splits sum.splits if_splits)

lemma sequential_pass_missing_parent:
  assumes "opts_node env = None"
    and "bucket_key env (prepare env raw) = key"
    and "key \<notin> dom (folders st)"
    and "\<forall>e\<in>set pre. type (prepare env e) = ''tree'' \<longrightarrow> path (prepare env e) \<noteq> key"
  shows "sequential_pass env st (pre @ raw # post) = Inl TypeError"
  using assms(3,4)
proof (induction pre arbitrary: st)
  case Nil
  then have "folders st (bucket_key env (prepare env raw)) = None"
    using assms(2) by (simp add: domIff)
  then show ?case
    by (simp add: step_missing_key)
next
  case (Cons e pre)
  show ?case
  proof (cases "step env st e")
    case (Inl err)
    then show ?thesis by (simp add: js_error_is_TypeError)
  next
    case (Inr st1)
    have "key \<notin> dom (folders st1)"
      using step_dom [OF Inr assms(1)] Cons.prems by (auto split: if_splits)
    moreover have "\<forall>e\<in>set pre. type (prepare env e) = ''tree'' \<longrightarrow> path (prepare env e) \<noteq> key"
      using Cons.prems(2) by simp
    ultimately have "sequential_pass env st1 (pre @ raw # post) = Inl TypeError"
      by (rule Cons.IH)
    then show ?thesis using Inr by simp
  qed
qed

text \<open>
  C2 as stated fails: in a full load, the entry of a file that comes before the entry of
  its directory finds no array under its parent key; no array is created for it, the push
  raises a TypeError and the build delivers nothing.
\<close>

theorem missing_parent_counterexample:
  "loadCodeTreeInternal full_env [blob_entry ''lib/a.js'', tree_entry ''lib''] = Inl TypeError"
proof -
  have "isl (loadCodeTreeInternal full_env [blob_entry ''lib/a.js'', tree_entry ''lib''])"
    by code_simp
  then show ?thesis by (rule isl_TypeError)
qed

text \<open>
  C2, amended.  In a full load, routing an entry whose parent-directory key has no array
  yet (the key is not the root key, and no \<open>tree\<close> entry earlier in the list has it as
  its path) does not create one: the push raises a TypeError and the build delivers no
  result.  So a list in which the entry of a child comes before the entry of its parent
  directory fails.
\<close>

theorem missing_parent_raises:
  assumes "opts_node env = None" and "tree = pre @ raw # post"
    and "key = substring (path (prepare env raw)) 0 (lastIndexOf (path (prepare env raw)) CHR ''/'')"
    and "key \<noteq> []"
    and "\<forall>e\<in>set pre. type (prepare env e) = ''tree'' \<longrightarrow> path (prepare env e) \<noteq> key"
  shows "loadCodeTreeInternal env tree = Inl TypeError"
proof -
  have k: "bucket_key env (prepare env raw) = key"
    using assms(1,3) by (simp add: bucket_key_def)
  have "key \<notin> dom (folders initial_state)"
    using assms(4) by (simp add: initial_state_def)
  from sequential_pass_missing_parent [OF assms(1) k this assms(5)]
  show ?thesis
    by (simp add: loadCodeTreeInternal_sequential assms(2))
qed

theorem missing_parent_raises_witness:
  "opts_node full_env = None \<and>
   substring (path (prepare full_env (blob_entry ''lib/a.js''))) 0
     (lastIndexOf (path (prepare full_env (blob_entry ''lib/a.js''))) CHR ''/'') = ''lib'' \<and>
   type (prepare full_env (tree_entry ''src'')) = ''tree'' \<and>
   path (prepare full_env (tree_entry ''src'')) = ''src'' \<and>
   loadCodeTreeInternal full_env
     ([tree_entry ''src''] @ blob_entry ''lib/a.js'' # [tree_entry ''lib'']) = Inl TypeError"
proof -
  have n: "opts_node full_env = None"
    by (simp add: full_env_def)
  have k: "''lib'' = substring (path (prepare full_env (blob_entry ''lib/a.js''))) 0
      (lastIndexOf (path (prepare full_env (blob_entry ''lib/a.js''))) CHR ''/'')"
    by (simp add: prepare_def full_env_def blob_entry_def substring_def)
  have t: "type (prepare full_env (tree_entry ''src'')) = ''tree''"
    and p: "path (prepare full_env (tree_entry ''src'')) = ''src''"
    by (simp_all add: prepare_def full_env_def tree_entry_def)
  have e: "\<forall>e\<in>set [tree_entry ''src'']. type (prepare full_env e) = ''tree'' \<longrightarrow>
      path (prepare full_env e) \<noteq> ''lib''"
    using p by simp
  have "loadCodeTreeInternal full_env
      ([tree_entry ''src''] @ blob_entry ''lib/a.js'' # [tree_entry ''lib'']) = Inl TypeError"
    using missing_parent_raises [OF n refl k _ e] by simp
  with n k t p show ?thesis by simp
qed

section \<open>The link of a file or directory\<close>

lemma hex_digits_all:
  "\<forall>d\<in>{0..<16}. hex_value (hex_digit d) = Some d \<and> hex_digit d \<noteq> CHR ''/''"
  by code_simp

lemma hex_value_digit: "d < 16 \<Longrightarrow> hex_value (hex_digit d) = Some d"
  using hex_digits_all by auto

lemma hex_digit_not_slash: "d < 16 \<Longrightarrow> hex_digit d \<noteq> CHR ''/''"
  using hex_digits_all by auto

lemma of_char_div_16: "(of_char c :: nat) div 16 < 16"
proof -
  have "(of_char c :: nat) mod 256 < 256" by (rule mod_less_divisor) simp
  then have "(of_char c :: nat) < 256" by (simp only: of_char_mod_256)
  then show ?thesis by presburger
qed

lemma char_of_nibbles: "char_of (16 * ((of_char c :: nat) div 16) + of_char c mod 16) = c"
  by simp

lemma unreserved_not_special:
  "uri_unreserved c \<Longrightarrow> c \<noteq> CHR ''%'' \<and> c \<noteq> CHR ''/''"
  by (auto simp: uri_unreserved_def)

lemma percent_decode_percent_byte:
  "percent_decode (percent_byte c @ r) = map_option ((#) c) (percent_decode r)"
  by (simp add: percent_byte_def hex_value_digit of_char_div_16)

lemma percent_decode_encode: "percent_decode (encodeURIComponent s) = Some s"
proof (induction s)
  case Nil
  then show ?case by (simp add: encodeURIComponent_def)
next
  case (Cons c s)
  then have IH: "percent_decode (concat (map (\<lambda>c. if uri_unreserved c then [c] else percent_byte c) s)) = Some s"
    by (simp add: encodeURIComponent_def)
  show ?case
  proof (cases "uri_unreserved c")
    case True
    then show ?thesis
      using IH unreserved_not_special [OF True] by (simp add: encodeURIComponent_def)
  next
    case False
    then show ?thesis
      using IH percent_decode_percent_byte by (simp add: encodeURIComponent_def)
  qed
qed

lemma encode_char_no_slash:
  "CHR ''/'' \<notin> set (if uri_unreserved c then [c] else percent_byte c)"
  using unreserved_not_special [of c] hex_digit_not_slash [OF of_char_div_16, of c]
    hex_digit_not_slash [of "of_char c mod 16"]
  by (auto simp: percent_byte_def)

lemma encode_no_slash: "CHR ''/'' \<notin> set (encodeURIComponent s)"
  unfolding encodeURIComponent_def using encode_char_no_slash by (induction s) auto

lemma split_not_Nil: "split s c \<noteq> []"
  by (induction s) auto

lemma split_no_separator: "c \<notin> set s \<Longrightarrow> split s c = [s]"
  by (induction s) auto

lemma split_append_sep:
  "c \<notin> set s \<Longrightarrow> split (s @ c # r) c = s # split r c"
  by (induction s) auto

lemma split_join:
  "ss \<noteq> [] \<Longrightarrow> \<forall>s\<in>set ss. c \<notin> set s \<Longrightarrow> split (join ss [c]) c = ss"
proof (induction ss "[c]" rule: join.induct)
  case 1
  then show ?case by simp
next
  case (2 s)
  then show ?case by (simp add: split_no_separator)
next
  case (3 s t ss)
  then show ?case by (simp add: split_append_sep)
qed

lemma split_encodedPath:
  "split (encodedPath p) CHR ''/'' = map encodeURIComponent (split p CHR ''/'')"
  unfolding encodedPath_def
  by (rule split_join) (auto simp: split_not_Nil encode_no_slash)

lemma decode_encodedPath:
  "map percent_decode (split (encodedPath p) CHR ''/'') = map Some (split p CHR ''/'')"
  by (simp add: split_encodedPath percent_decode_encode)

lemma split_append_split:
  "split (s @ c # r) c = split s c @ split r c"
proof (induction s)
  case Nil
  then show ?case by simp
next
  case (Cons x s)
  then show ?case
    using split_not_Nil [of s c] by (cases "split s c") auto
qed

lemma render_node_file:
  assumes "type it = ''tree'' \<or> type it = ''blob''" and "\<not> has_diffId it"
  shows "\<exists>n a. render_node env fresh it = Inr n \<and> a_attr n = Some a \<and>
     href a =
       (''/'' @ username (opts_repo env) @ ''/'' @ reponame (opts_repo env) @ ''/'' @ type it @
        ''/'' @ opts_encodedBranch env) @
       ''/'' @ join (map encodeURIComponent (split (path it) CHR ''/'')) ''/''"
  using assms
  by (auto simp: render_node_def Let_def file_attr_def item_href_def getItemHref_def
      encodedPath_def)

text \<open>
  C8.  For a \<open>tree\<close> or \<open>blob\<close> item that is not linked into a diff (no patch with a
  numeric \<open>diffId\<close>), whatever characters its path has (spaces and percent signs too),
  the \<open>href\<close> is the text \<open>/username/reponame/type/branch\<close>, a slash, and the path in
  which every segment between slashes is passed through \<open>encodeURIComponent\<close> and the
  segments are joined with \<open>/\<close> again.  Cutting the \<open>href\<close> at its slashes gives the
  pieces of that prefix followed by the encoded segments of the path, one for one: no
  slash of the path is encoded and no encoded segment has one.  Percent-decoding the
  pieces that come from the path gives back the segments of the path.
\<close>

theorem item_href_round_trip:
  assumes "type it = ''tree'' \<or> type it = ''blob''" and "\<not> has_diffId it"
    and "base = ''/'' @ username (opts_repo env) @ ''/'' @ reponame (opts_repo env) @ ''/'' @
                type it @ ''/'' @ opts_encodedBranch env"
  shows "\<exists>n a. render_node env fresh it = Inr n \<and> a_attr n = Some a \<and>
     href a = base @ ''/'' @ join (map encodeURIComponent (split (path it) CHR ''/'')) ''/'' \<and>
     split (href a) CHR ''/'' =
       split base CHR ''/'' @ map encodeURIComponent (split (path it) CHR ''/'') \<and>
     map percent_decode (drop (length (split base CHR ''/'')) (split (href a) CHR ''/'')) =
       map Some (split (path it) CHR ''/'')"
proof -
  from render_node_file [OF assms(1,2)] obtain n a where
    n: "render_node env fresh it = Inr n" and a: "a_attr n = Some a" and
    h: "href a = base @ ''/'' @ join (map encodeURIComponent (split (path it) CHR ''/'')) ''/''"
    unfolding assms(3) by blast
  have s: "split (href a) CHR ''/'' =
      split base CHR ''/'' @ map encodeURIComponent (split (path it) CHR ''/'')"
    unfolding h using split_append_split [of base "CHR ''/''"] split_encodedPath [of "path it"]
    by (simp add: encodedPath_def)
  have "map percent_decode (drop (length (split base CHR ''/'')) (split (href a) CHR ''/'')) =
      map Some (split (path it) CHR ''/'')"
    unfolding s by (simp add: percent_decode_encode)
  with n a h s show ?thesis by blast
qed

theorem item_href_round_trip_witness:
  "(type (blob_entry ''lib/a b%.js'') = ''tree'' \<or> type (blob_entry ''lib/a b%.js'') = ''blob'') \<and>
   \<not> has_diffId (blob_entry ''lib/a b%.js'') \<and>
   (\<exists>n a. render_node full_env 0 (blob_entry ''lib/a b%.js'') = Inr n \<and> a_attr n = Some a \<and>
      href a = ''/octo/tree/blob/master/lib/a%20b%25.js'' \<and>
      split (href a) CHR ''/'' = [[], ''octo'', ''tree'', ''blob'', ''master'', ''lib'', ''a%20b%25.js''] \<and>
      map percent_decode (drop 5 (split (href a) CHR ''/'')) = [Some ''lib'', Some ''a b%.js''])"
proof -
  have t: "type (blob_entry ''lib/a b%.js'') = ''tree'' \<or> type (blob_entry ''lib/a b%.js'') = ''blob''"
    by (simp add: blob_entry_def)
  have d: "\<not> has_diffId (blob_entry ''lib/a b%.js'')"
    by (simp add: blob_entry_def has_diffId_def)
  have b: "''/octo/tree/blob/master'' =
      ''/'' @ username (opts_repo full_env) @ ''/'' @ reponame (opts_repo full_env) @ ''/'' @
      type (blob_entry ''lib/a b%.js'') @ ''/'' @ opts_encodedBranch full_env"
    by (simp add: full_env_def sample_repo_def blob_entry_def)
  have h': "''/octo/tree/blob/master'' @ ''/'' @
      join (map encodeURIComponent (split (path (blob_entry ''lib/a b%.js'')) CHR ''/'')) ''/'' =
      ''/octo/tree/blob/master/lib/a%20b%25.js''"
    by code_simp
  have s': "split ''/octo/tree/blob/master'' CHR ''/'' @
      map encodeURIComponent (split (path (blob_entry ''lib/a b%.js'')) CHR ''/'') =
      [[], ''octo'', ''tree'', ''blob'', ''master'', ''lib'', ''a%20b%25.js'']"
    by code_simp
  have l: "length (split ''/octo/tree/blob/master'' CHR ''/'') = 5"
    by code_simp
  have m: "map Some (split (path (blob_entry ''lib/a b%.js'')) CHR ''/'') = [Some ''lib'', Some ''a b%.js'']"
    by code_simp
  from item_href_round_trip [OF t d b, of 0] obtain n a where
    n: "render_node full_env 0 (blob_entry ''lib/a b%.js'') = Inr n" and a: "a_attr n = Some a" and
    h: "href a = ''/octo/tree/blob/master'' @ ''/'' @
      join (map encodeURIComponent (split (path (blob_entry ''lib/a b%.js'')) CHR ''/'')) ''/''" and
    s: "split (href a) CHR ''/'' = split ''/octo/tree/blob/master'' CHR ''/'' @
      map encodeURIComponent (split (path (blob_entry ''lib/a b%.js'')) CHR ''/'')" and
    p: "map percent_decode (drop (length (split ''/octo/tree/blob/master'' CHR ''/''))
        (split (href a) CHR ''/'')) =
      map Some (split (path (blob_entry ''lib/a b%.js'')) CHR ''/'')"
    by blast
  have h2: "href a = ''/octo/tree/blob/master/lib/a%20b%25.js''"
    using h h' by (rule trans)
  have s2: "split (href a) CHR ''/'' =
      [[], ''octo'', ''tree'', ''blob'', ''master'', ''lib'', ''a%20b%25.js'']"
    using s s' by (rule trans)
  have p2: "map percent_decode (drop 5 (split (href a) CHR ''/'')) = [Some ''lib'', Some ''a b%.js'']"
    using p [unfolded l] m by (rule trans)
  have "\<exists>n a. render_node full_env 0 (blob_entry ''lib/a b%.js'') = Inr n \<and> a_attr n = Some a \<and>
      href a = ''/octo/tree/blob/master/lib/a%20b%25.js'' \<and>
      split (href a) CHR ''/'' = [[], ''octo'', ''tree'', ''blob'', ''master'', ''lib'', ''a%20b%25.js''] \<and>
      map percent_decode (drop 5 (split (href a) CHR ''/'')) = [Some ''lib'', Some ''a b%.js'']"
    by (rule exI [of _ n], rule exI [of _ a]) (intro conjI n a h2 s2 p2)
  then show ?thesis
    by (intro conjI t d)
qed

section \<open>Submodule links\<close>

lemma replace_first_absent: "indexOf s pat = - 1 \<Longrightarrow> replace_first s pat rep = s"
proof (induction s)
  case Nil
  then show ?case by (auto split: if_splits)
next
  case (Cons c r)
  then show ?case
    using indexOf_ge [of r pat] by (auto simp: Let_def split: if_splits)
qed

lemma startsWith_append_hd:
  assumes "startsWith (y @ t) pat" and "t \<noteq> []" and "hd t \<notin> set pat"
  shows "startsWith y pat"
proof (cases "length pat \<le> length y")
  case True
  then show ?thesis using assms(1) by (simp add: startsWith_def)
next
  case False
  then have k: "0 < length pat - length y" by simp
  have "pat = y @ take (length pat - length y) t"
    using assms(1) False by (simp add: startsWith_def)
  moreover have "hd t \<in> set (take (length pat - length y) t)"
    using k assms(2) by (cases t) (auto simp: take_Cons')
  ultimately have "hd t \<in> set pat"
    by (metis Un_iff set_append)
  with assms(3) show ?thesis by simp
qed

lemma indexOf_append_absent:
  assumes "indexOf t pat = - 1" and "t \<noteq> []" and "hd t \<notin> set pat"
  shows "indexOf x pat = - 1 \<Longrightarrow> indexOf (x @ t) pat = - 1"
proof (induction x)
  case Nil
  then show ?case using assms(1) by simp
next
  case (Cons c x)
  from Cons.prems have ns: "\<not> startsWith (c # x) pat" and r: "indexOf x pat = - 1"
    using indexOf_ge [of x pat] by (auto simp: Let_def split: if_splits)
  have "\<not> startsWith ((c # x) @ t) pat"
    using ns startsWith_append_hd [OF _ assms(2,3)] by blast
  then show ?case
    using Cons.IH [OF r] by (simp add: Let_def)
qed

lemma last_character_append:
  assumes "\<not> continuation_byte lead" and "\<forall>b\<in>set conts. continuation_byte b"
  shows "last_character (p @ lead # conts) = lead # conts"
proof -
  have "takeWhile continuation_byte (rev (p @ lead # conts)) =
      takeWhile continuation_byte (rev conts @ lead # rev p)"
    by simp
  also have "\<dots> = rev conts @ takeWhile continuation_byte (lead # rev p)"
    using assms(2) by (intro takeWhile_append2) simp
  also have "\<dots> = rev conts"
    using assms(1) by simp
  finally have "length (takeWhile continuation_byte (rev (p @ lead # conts))) = length conts"
    by simp
  then show ?thesis
    by (simp add: last_character_def)
qed

lemma replace_dot_git_end_character:
  assumes "\<not> continuation_byte lead" and "\<forall>b\<in>set conts. continuation_byte b"
  shows "replace_dot_git_end (p @ lead # conts @ ''git'') =
     (if line_terminator (lead # conts) then p @ lead # conts @ ''git''
      else if length conts = 3 then p @ first_code_unit (lead # conts)
      else p)"
proof -
  have t: "take (length (p @ lead # conts @ ''git'') - 3) (p @ lead # conts @ ''git'') = p @ lead # conts"
    by simp
  have d: "drop (length (p @ lead # conts @ ''git'') - 3) (p @ lead # conts @ ''git'') = ''git''"
    by simp
  show ?thesis
    unfolding replace_dot_git_end_def Let_def t d last_character_append [OF assms]
    by simp
qed

lemma replace_dot_git_end_dot_git: "replace_dot_git_end (p @ ''.git'') = p"
proof -
  have "\<not> continuation_byte CHR ''.''"
    by (simp add: continuation_byte_def)
  from replace_dot_git_end_character [OF this, of "[]" p] show ?thesis
    by (simp add: line_terminator_def)
qed

lemma normalize_sample:
  assumes "indexOf (location_protocol env) ''github.com:'' = - 1"
  shows "normalize_module_url env ''git://github.com/owner/repo.git'' =
     location_protocol env @ ''//github.com/owner/repo''"
proof -
  have a: "replace_git_scheme ''git://github.com/owner/repo.git'' (location_protocol env @ ''//'') =
      location_protocol env @ ''//github.com/owner/repo.git''"
    by (simp add: replace_git_scheme_def startsWith_def)
  have "indexOf ''//github.com/owner/repo.git'' ''github.com:'' = - 1"
    by code_simp
  then have "indexOf (location_protocol env @ ''//github.com/owner/repo.git'') ''github.com:'' = - 1"
    using indexOf_append_absent [OF _ _ _ assms, of "''//github.com/owner/repo.git''"] by simp
  then have b: "replace_first (location_protocol env @ ''//github.com/owner/repo.git'')
      ''github.com:'' ''github.com/'' = location_protocol env @ ''//github.com/owner/repo.git''"
    by (rule replace_first_absent)
  have c: "replace_dot_git_end (location_protocol env @ ''//github.com/owner/repo.git'') =
      location_protocol env @ ''//github.com/owner/repo''"
    using replace_dot_git_end_dot_git [of "location_protocol env @ ''//github.com/owner/repo''"]
    by simp
  show ?thesis
    unfolding normalize_module_url_def a b c ..
qed

text \<open>
  C9.  A \<open>commit\<close> item whose submodule URL is \<open>git://github.com/owner/repo.git\<close> gets
  the URL \<open><protocol>//github.com/owner/repo\<close>, with the protocol of the current page in
  place of \<open>git:\<close> and without the suffix \<open>.git\<close>, as its \<open>href\<close>; its text is two
  links around \<open>@\<close>: the name of the submodule linked to that URL, and the first seven
  characters of the \<open>sha\<close> linked to \<open><that URL>/tree/<sha>\<close>.  The protocol of a page is
  a URL scheme and a colon: it has no \<open>$\<close> (which \<open>replace\<close> would expand) and does
  not contain \<open>github.com:\<close> (which the second \<open>replace\<close> would rewrite).
\<close>

theorem submodule_link:
  assumes "type it = ''commit''"
    and "submodules env (path it) = Some ''git://github.com/owner/repo.git''"
    and "sha it = Some s"
    and "CHR ''$'' \<notin> set (location_protocol env)"
    and "indexOf (location_protocol env) ''github.com:'' = - 1"
  shows \<open>\<exists>n. render_node env fresh it = Inr n \<and>
     a_attr n = Some \<lparr>href = location_protocol env @ ''//github.com/owner/repo'',
                       data_download_url = None, data_download_filename = None\<rparr> \<and>
     node_text n =
       ''<a href="'' @ location_protocol env @ ''//github.com/owner/repo" class="jstree-anchor">'' @
       item_name it @ ''</a><span>@ </span><a href="'' @
       location_protocol env @ ''//github.com/owner/repo/tree/'' @ s @
       ''" class="jstree-anchor">'' @ take 7 s @ ''</a>''\<close>
proof -
  have g: "indexOf ''git://github.com/owner/repo.git'' ''github.com'' \<noteq> - 1"
    by code_simp
  show ?thesis
    using assms(1,2,3) g
    by (simp add: render_node_def get_property_def Let_def normalize_sample [OF assms(5)]
        submodule_text_def substr_def)
qed

theorem submodule_link_witness:
  \<open>type (commit_entry ''lib/sub'' ''0123456789abcdef'') = ''commit'' \<and>
   submodules full_env (path (commit_entry ''lib/sub'' ''0123456789abcdef'')) =
     Some ''git://github.com/owner/repo.git'' \<and>
   sha (commit_entry ''lib/sub'' ''0123456789abcdef'') = Some ''0123456789abcdef'' \<and>
   CHR ''$'' \<notin> set (location_protocol full_env) \<and>
   indexOf (location_protocol full_env) ''github.com:'' = - 1 \<and>
   (\<exists>n. render_node full_env 0 (commit_entry ''lib/sub'' ''0123456789abcdef'') = Inr n \<and>
      a_attr n = Some \<lparr>href = ''https://github.com/owner/repo'',
                        data_download_url = None, data_download_filename = None\<rparr> \<and>
      node_text n =
        ''<a href="https://github.com/owner/repo" class="jstree-anchor">sub</a>'' @
        ''<span>@ </span>'' @
        ''<a href="https://github.com/owner/repo/tree/0123456789abcdef" class="jstree-anchor">0123456</a>'')\<close>
proof -
  have t: "type (commit_entry ''lib/sub'' ''0123456789abcdef'') = ''commit''"
    by (simp add: commit_entry_def)
  have m: "submodules full_env (path (commit_entry ''lib/sub'' ''0123456789abcdef'')) =
      Some ''git://github.com/owner/repo.git''"
    by (simp add: commit_entry_def full_env_def)
  have s: "sha (commit_entry ''lib/sub'' ''0123456789abcdef'') = Some ''0123456789abcdef''"
    by (simp add: commit_entry_def)
  have d: "CHR ''$'' \<notin> set (location_protocol full_env)"
    by (simp add: full_env_def)
  have g: "indexOf (location_protocol full_env) ''github.com:'' = - 1"
    by code_simp
  have p: "location_protocol full_env = ''https:''"
    by (simp add: full_env_def)
  have n: "item_name (commit_entry ''lib/sub'' ''0123456789abcdef'') = ''sub''"
    by code_simp
  from submodule_link [OF t m s d g, of 0] t m s d g show ?thesis
    unfolding p n by simp
qed

text \<open>
  C10 as stated fails: the dot of the pattern does not match any character whatever.  It
  does not match a line terminator, and the line separator U+2028 (the bytes
  \<open>E2 80 A8\<close>) is one that can stand inside a line of text: the URL of a GitHub submodule
  that ends in it followed by \<open>git\<close> keeps its last four characters.
\<close>

theorem dot_git_line_separator_counterexample:
  "indexOf (''https://github.com/owner/repo'' @ [CHR 0xE2, CHR 0x80, CHR 0xA8] @ ''git'')
     ''github.com'' \<noteq> - 1 \<and>
   replace_dot_git_end (''https://github.com/owner/repo'' @ [CHR 0xE2, CHR 0x80, CHR 0xA8] @ ''git'') =
     ''https://github.com/owner/repo'' @ [CHR 0xE2, CHR 0x80, CHR 0xA8] @ ''git'' \<and>
   normalize_module_url full_env
       (''https://github.com/owner/repo'' @ [CHR 0xE2, CHR 0x80, CHR 0xA8] @ ''git'') =
     ''https://github.com/owner/repo'' @ [CHR 0xE2, CHR 0x80, CHR 0xA8] @ ''git''"
  by code_simp

text \<open>
  C10, amended.  The step that strips the suffix removes the last four characters of a URL
  that ends with one character other than a line terminator (LF, CR, U+2028, U+2029)
  followed by \<open>git\<close>: not only of a URL that ends in \<open>.git\<close>, also of one that ends in
  \<open>-git\<close> or \<open>agit\<close>.  A URL whose character before the final \<open>git\<close> is a line
  terminator is left as it is.  The character before \<open>git\<close> is given by its bytes, a lead
  byte and its continuation bytes; with up to two continuation bytes it is one code unit
  and goes as a whole, with three it is two code units, of which the second one goes with
  \<open>git\<close> (four code units again) and the first one stays.
\<close>

theorem dot_git_suffix_stripped:
  assumes "\<not> continuation_byte lead" and "\<forall>b\<in>set conts. continuation_byte b"
    and "length conts \<le> 3"
  shows "replace_dot_git_end (p @ lead # conts @ ''git'') =
     (if lead # conts = [CHR 0x0A] \<or> lead # conts = [CHR 0x0D] \<or>
         lead # conts = [CHR 0xE2, CHR 0x80, CHR 0xA8] \<or>
         lead # conts = [CHR 0xE2, CHR 0x80, CHR 0xA9]
      then p @ lead # conts @ ''git''
      else if length conts = 3 then p @ first_code_unit (lead # conts)
      else p)"
  using replace_dot_git_end_character [OF assms(1,2), of p]
  by (simp only: line_terminator_def)

theorem dot_git_suffix_stripped_witness:
  "\<not> continuation_byte CHR ''-'' \<and> \<not> continuation_byte CHR ''a'' \<and>
   \<not> continuation_byte CHR 0xC3 \<and> continuation_byte CHR 0xA9 \<and>
   replace_dot_git_end (''https://github.com/owner/repo'' @ CHR ''-'' # [] @ ''git'') =
     ''https://github.com/owner/repo'' \<and>
   replace_dot_git_end (''https://github.com/owner/repo'' @ CHR ''a'' # [] @ ''git'') =
     ''https://github.com/owner/repo'' \<and>
   replace_dot_git_end (''https://github.com/owner/caf'' @ CHR 0xC3 # [CHR 0xA9] @ ''git'') =
     ''https://github.com/owner/caf''"
proof -
  have a: "\<not> continuation_byte CHR ''-''" and b: "\<not> continuation_byte CHR ''a''"
    and c: "\<not> continuation_byte CHR 0xC3" and d: "continuation_byte CHR 0xA9"
    by (simp_all add: continuation_byte_def)
  have e: "\<forall>b\<in>set []. continuation_byte b"
    by simp
  have f: "\<forall>b\<in>set [CHR 0xA9]. continuation_byte b"
    using d by simp
  from dot_git_suffix_stripped [OF a e, of "''https://github.com/owner/repo''"]
    dot_git_suffix_stripped [OF b e, of "''https://github.com/owner/repo''"]
    dot_git_suffix_stripped [OF c f, of "''https://github.com/owner/caf''"]
    a b c d
  show ?thesis by simp
qed

section \<open>Patch badges\<close>

lemma render_node_text:
  assumes "\<not> github_submodule env it" and "\<not> inherited_submodule env it"
  shows "\<exists>n. render_node env fresh it = Inr n \<and> node_text n = item_text it"
  using assms
  by (auto simp: render_node_def github_submodule_def inherited_submodule_def Let_def
      split: property.splits)

text \<open>
  C6 as stated fails where the counts are absent: \<open>undefined !== 0\<close> holds, so an item whose
  patch has no \<open>additions\<close> and no \<open>deletions\<close> gets both badges, with the text
  \<open>undefined\<close> in them.
\<close>

theorem absent_counts_counterexample:
  \<open>map_sum id node_text (render_node full_env 0 (removed_entry None None)) =
   Inr (''path.txt<span class="patch">'' @
        ''<span class="text-red" title="old/path.txt">removed</span>'' @
        ''<span class="text-green">+undefined</span>'' @
        ''<span class="text-red">-undefined</span>'' @
        ''</span>'')\<close>
  by code_simp

text \<open>
  C6, amended.  For every item whose patch has the action \<open>removed\<close> and a previous path
  (and that is not the item of a submodule whose text is replaced by the links to GitHub
  or whose lookup in the submodule map raises), the text is the escaped name followed by
  the patch span.  The span starts with the \<open>removed\<close> badge, which has the previous path
  as its \<open>title\<close>; the count of changed files follows if there is one; then the additions
  badge and the deletions badge.  The additions badge is missing when \<open>additions\<close> is the
  number zero and is \<open>+n\<close> when it is another number \<open>n\<close>; the same holds for the
  deletions badge with \<open>-n\<close>.
\<close>

theorem removed_badge:
  assumes "patch it = Some p" and "action p = ''removed''" and "previous p = Some prev"
    and "\<not> github_submodule env it" and "\<not> inherited_submodule env it"
  shows \<open>\<exists>n plus minus. render_node env fresh it = Inr n \<and>
     node_text n =
       item_name it @ ''<span class="patch">'' @
       ''<span class="text-red" title="'' @ prev @ ''">removed</span>'' @
       (case filesChanged p of
          None \<Rightarrow> []
        | Some c \<Rightarrow>
            if c = 0 then []
            else ''<span>'' @ show_int c @ '' '' @ (if c = 1 then ''file'' else ''files'') @ ''</span>'') @
       plus @ minus @ ''</span>'' \<and>
     (additions p = Some 0 \<longrightarrow> plus = []) \<and>
     (\<forall>k. additions p = Some k \<longrightarrow> k \<noteq> 0 \<longrightarrow>
        plus = ''<span class="text-green">+'' @ show_int k @ ''</span>'') \<and>
     (deletions p = Some 0 \<longrightarrow> minus = []) \<and>
     (\<forall>k. deletions p = Some k \<longrightarrow> k \<noteq> 0 \<longrightarrow>
        minus = ''<span class="text-red">-'' @ show_int k @ ''</span>'')\<close>
proof -
  from render_node_text [OF assms(4,5)] obtain n where
    n: "render_node env fresh it = Inr n" and t: "node_text n = item_text it"
    by blast
  have \<open>node_text n =
       item_name it @ ''<span class="patch">'' @
       ''<span class="text-red" title="'' @ prev @ ''">removed</span>'' @
       (case filesChanged p of
          None \<Rightarrow> []
        | Some c \<Rightarrow>
            if c = 0 then []
            else ''<span>'' @ show_int c @ '' '' @ (if c = 1 then ''file'' else ''files'') @ ''</span>'') @
       additions_badge p @ deletions_badge p @ ''</span>''\<close>
    unfolding t using assms(1,2,3)
    by (simp add: item_text_def patch_html_def action_badge_def files_badge_def show_str_def)
  moreover have "additions p = Some 0 \<longrightarrow> additions_badge p = []"
    by (simp add: additions_badge_def)
  moreover have \<open>\<forall>k. additions p = Some k \<longrightarrow> k \<noteq> 0 \<longrightarrow>
      additions_badge p = ''<span class="text-green">+'' @ show_int k @ ''</span>''\<close>
    by (simp add: additions_badge_def show_num_def)
  moreover have "deletions p = Some 0 \<longrightarrow> deletions_badge p = []"
    by (simp add: deletions_badge_def)
  moreover have \<open>\<forall>k. deletions p = Some k \<longrightarrow> k \<noteq> 0 \<longrightarrow>
      deletions_badge p = ''<span class="text-red">-'' @ show_int k @ ''</span>''\<close>
    by (simp add: deletions_badge_def show_num_def)
  ultimately show ?thesis
    using n by blast
qed

theorem removed_badge_witness:
  \<open>patch (removed_entry (Some 0) (Some 3)) = Some (removed_patch (Some 0) (Some 3)) \<and>
   action (removed_patch (Some 0) (Some 3)) = ''removed'' \<and>
   previous (removed_patch (Some 0) (Some 3)) = Some ''old/path.txt'' \<and>
   \<not> github_submodule full_env (removed_entry (Some 0) (Some 3)) \<and>
   \<not> inherited_submodule full_env (removed_entry (Some 0) (Some 3)) \<and>
   (\<exists>n. render_node full_env 0 (removed_entry (Some 0) (Some 3)) = Inr n \<and>
      node_text n =
        ''path.txt<span class="patch">'' @
        ''<span class="text-red" title="old/path.txt">removed</span>'' @
        ''<span class="text-red">-3</span>'' @ ''</span>'')\<close>
proof -
  have a: "patch (removed_entry (Some 0) (Some 3)) = Some (removed_patch (Some 0) (Some 3))"
    by (simp add: removed_entry_def)
  have b: "action (removed_patch (Some 0) (Some 3)) = ''removed''"
    and c: "previous (removed_patch (Some 0) (Some 3)) = Some ''old/path.txt''"
    and d: "additions (removed_patch (Some 0) (Some 3)) = Some 0"
    and e: "deletions (removed_patch (Some 0) (Some 3)) = Some 3"
    and g: "filesChanged (removed_patch (Some 0) (Some 3)) = None"
    by (simp_all add: removed_patch_def)
  have f: "\<not> github_submodule full_env (removed_entry (Some 0) (Some 3))"
    and h: "\<not> inherited_submodule full_env (removed_entry (Some 0) (Some 3))"
    by (simp_all add: github_submodule_def inherited_submodule_def removed_entry_def)
  have i: "item_name (removed_entry (Some 0) (Some 3)) = ''path.txt''"
    by code_simp
  have s: "show_int 3 = ''3''"
    by code_simp
  from removed_badge [OF a b c f h, of 0] obtain n plus minus where
    n: "render_node full_env 0 (removed_entry (Some 0) (Some 3)) = Inr n" and
    t: \<open>node_text n = ''path.txt<span class="patch">'' @
        ''<span class="text-red" title="old/path.txt">removed</span>'' @
        plus @ minus @ ''</span>''\<close> and
    p: "plus = []" and m: \<open>minus = ''<span class="text-red">-'' @ show_int 3 @ ''</span>''\<close>
    unfolding i g d e by auto
  from n t p m a b c f h show ?thesis
    unfolding s by simp
qed

end
